theory Spec2Isabelle
  imports Complex_Main "HOL-Library.AList"
begin

section \<open>Python strings\<close>

text \<open>
  A Python \<open>str\<close> is modelled by a HOL \<open>string\<close>, one \<open>char\<close> per code point, so
  the model covers text whose code points lie below 256.  The character classes below are
  Python's own on that range.
\<close>

definition whitespace_chars :: "char list" where
  "whitespace_chars =
     [CHR 0x09, CHR 0x0A, CHR 0x0B, CHR 0x0C, CHR 0x0D, CHR 0x1C, CHR 0x1D, CHR 0x1E,
      CHR 0x1F, CHR 0x20, CHR 0x85, CHR 0xA0]"

definition is_space :: "char \<Rightarrow> bool" where
  "is_space c = (c \<in> set whitespace_chars)"

text \<open>\<open>str.strip()\<close>: leading and trailing whitespace removed.\<close>

definition strip :: "string \<Rightarrow> string" where
  "strip s = rev (dropWhile is_space (rev (dropWhile is_space s)))"

text \<open>\<open>str.lower()\<close> on one code point below 256.\<close>

definition lower_char :: "char \<Rightarrow> char" where
  "lower_char c =
     (let n = (of_char c :: nat)
      in if (65 \<le> n \<and> n \<le> 90) \<or> (192 \<le> n \<and> n \<le> 222 \<and> n \<noteq> 215)
         then char_of (n + 32) else c)"

definition py_lower :: "string \<Rightarrow> string" where
  "py_lower s = map lower_char s"

text \<open>\<open>s.startswith(p)\<close>, \<open>s.endswith(p)\<close> and \<open>p in s\<close>.\<close>

fun startswith :: "string \<Rightarrow> string \<Rightarrow> bool" where
  "startswith s [] = True"
| "startswith [] (p # ps) = False"
| "startswith (c # cs) (p # ps) = (c = p \<and> startswith cs ps)"

definition endswith :: "string \<Rightarrow> string \<Rightarrow> bool" where
  "endswith s p = startswith (rev s) (rev p)"

fun contains :: "string \<Rightarrow> string \<Rightarrow> bool" where
  "contains p [] = (p = [])"
| "contains p (c # cs) = (startswith (c # cs) p \<or> contains p cs)"

text \<open>The two triple-quote tokens of the source.\<close>

definition triple_single :: string where
  "triple_single = [CHR 0x27, CHR 0x27, CHR 0x27]"

definition triple_double :: string where
  "triple_double = [CHR 0x22, CHR 0x22, CHR 0x22]"

section \<open>The line classifier of the reporter: \<open>estimate_comment_lines\<close>\<close>

definition block_start :: "string list" where
  "block_start = [''/*'', triple_single, triple_double]"

definition block_end :: "string list" where
  "block_end = [''*/'', triple_single, triple_double]"

text \<open>
  One iteration of the loop over the lines.  The state is the pair of the two local
  variables \<open>comment\<close> and \<open>in_block\<close>; \<open>in_block = False\<close> is the state Normal of the
  specification, \<open>in_block = True\<close> is InBlockComment.  The argument \<open>ext\<close> is already
  lowercased, as the first statement of the source function does.
\<close>

definition ecl_step :: "string \<Rightarrow> nat \<times> bool \<Rightarrow> string \<Rightarrow> nat \<times> bool" where
  "ecl_step ext st raw =
     (let comment = fst st; in_block = snd st; s = strip raw
      in if s = [] then (comment, in_block)
         else if in_block then
           (comment + 1, if list_ex (\<lambda>tok. contains tok s) block_end then False else in_block)
         else if ext = ''.py'' then
           (if startswith s ''#'' then (comment + 1, in_block)
            else if startswith s triple_single \<or> startswith s triple_double then
              (comment + 1,
               if \<not> (endswith s triple_single \<or> endswith s triple_double) then True
               else in_block)
            else (comment, in_block))
         else
           (if startswith s ''//'' then (comment + 1, in_block)
            else if startswith s ''/*'' \<or> startswith s ''<!--'' then (comment + 1, True)
            else (comment, in_block)))"

primrec ecl_loop :: "string \<Rightarrow> nat \<times> bool \<Rightarrow> string list \<Rightarrow> nat \<times> bool" where
  "ecl_loop ext st [] = st"
| "ecl_loop ext st (raw # rest) = ecl_loop ext (ecl_step ext st raw) rest"

definition estimate_comment_lines :: "string \<Rightarrow> string list \<Rightarrow> nat" where
  "estimate_comment_lines ext lines = fst (ecl_loop (py_lower ext) (0, False) lines)"

section \<open>The complexity estimate\<close>

text \<open>
  Python floats are modelled by exact rationals.  The only float the reporter builds is
  \<open>float(score)\<close> of an integer count, which is exact below \<open>2 ^ 53\<close>.
\<close>

type_synonym pyfloat = rat

definition COMPLEXITY_TOKENS :: "string list" where
  "COMPLEXITY_TOKENS =
     ['' if '', '' for '', '' while '', '' case '', '' when '', '' elif '', '' switch '',
      '' catch '', '' try '', ''&&'', ''||'', ''?:'', ''?'', '' await '', '' async '',
      '' yield '', '' except '', '' with '', '' and '', '' or '']"

text \<open>The padded, lowercased line \<open>f" {raw.strip()} ".lower()\<close>.\<close>

definition padded_line :: "string \<Rightarrow> string" where
  "padded_line raw = py_lower ('' '' @ strip raw @ '' '')"

text \<open>\<open>sum(1 for tok in COMPLEXITY_TOKENS if tok in s)\<close>.\<close>

definition line_score :: "string \<Rightarrow> nat" where
  "line_score s = length (filter (\<lambda>tok. contains tok s) COMPLEXITY_TOKENS)"

primrec complexity_loop :: "nat \<Rightarrow> string list \<Rightarrow> nat" where
  "complexity_loop score [] = score"
| "complexity_loop score (raw # rest) =
     complexity_loop (score + line_score (padded_line raw)) rest"

definition estimate_complexity :: "string list \<Rightarrow> pyfloat" where
  "estimate_complexity lines = of_nat (complexity_loop 0 lines)"

text \<open>
  The reading of the specification, for comparison: the number of positions of the line at
  which a token occurs, summed over the vocabulary.
\<close>

primrec spec_occurrences :: "string \<Rightarrow> string \<Rightarrow> nat" where
  "spec_occurrences tok [] = 0"
| "spec_occurrences tok (c # cs) =
     (if startswith (c # cs) tok then 1 else 0) + spec_occurrences tok cs"

definition spec_line_occurrences :: "string \<Rightarrow> nat" where
  "spec_line_occurrences s = sum_list (map (\<lambda>tok. spec_occurrences tok s) COMPLEXITY_TOKENS)"

section \<open>Lines of a text: \<open>str.splitlines\<close> and \<open>str.join\<close>\<close>

text \<open>
  The line boundaries of \<open>str.splitlines()\<close> below 256: LF, VT, FF, CR, FS, GS, RS and
  NEL; CR LF is one boundary.  A text that ends with a boundary has no empty last line.
\<close>

definition linebreak_chars :: "char list" where
  "linebreak_chars = [CHR 0x0A, CHR 0x0B, CHR 0x0C, CHR 0x0D, CHR 0x1C, CHR 0x1D, CHR 0x1E, CHR 0x85]"

fun splitlines_from :: "string \<Rightarrow> string \<Rightarrow> string list" where
  "splitlines_from cur [] = (if cur = [] then [] else [rev cur])"
| "splitlines_from cur (c # cs) =
     (if c = CHR 0x0D then
        (case cs of
           d # ds \<Rightarrow> if d = CHR 0x0A then rev cur # splitlines_from [] ds
                     else rev cur # splitlines_from [] (d # ds)
         | [] \<Rightarrow> [rev cur])
      else if c \<in> set linebreak_chars then rev cur # splitlines_from [] cs
      else splitlines_from (c # cur) cs)"

definition splitlines :: "string \<Rightarrow> string list" where
  "splitlines text = splitlines_from [] text"

text \<open>\<open>sep.join(parts)\<close>.\<close>

fun join :: "string \<Rightarrow> string list \<Rightarrow> string" where
  "join sep [] = []"
| "join sep [x] = x"
| "join sep (x # y # ys) = x @ sep @ join sep (y # ys)"

section \<open>Paths: \<open>pathlib.Path\<close> on POSIX\<close>

text \<open>\<open>s.split(c)\<close> for a one-character separator.\<close>

primrec split_on :: "char \<Rightarrow> string \<Rightarrow> string list" where
  "split_on c [] = [[]]"
| "split_on c (x # xs) =
     (if x = c then [] # split_on c xs
      else (case split_on c xs of w # ws \<Rightarrow> (x # w) # ws | [] \<Rightarrow> [[x]]))"

text \<open>
  \<open>Path(f)\<close> keeps the root (\<open>/\<close>, or \<open>//\<close> for exactly two leading slashes) and the
  components that are neither empty nor \<open>.\<close>; \<open>str(Path(f))\<close> joins them again, and the
  path without root and components prints as \<open>.\<close>.
\<close>

definition path_root :: "string \<Rightarrow> string" where
  "path_root f =
     (if startswith f ''//'' \<and> \<not> startswith f ''///'' then ''//''
      else if startswith f ''/'' then ''/'' else [])"

definition path_parts :: "string \<Rightarrow> string list" where
  "path_parts f = filter (\<lambda>p. p \<noteq> [] \<and> p \<noteq> ''.'') (split_on CHR ''/'' f)"

definition path_str :: "string \<Rightarrow> string" where
  "path_str f =
     (if path_root f = [] \<and> path_parts f = [] then ''.''
      else path_root f @ join ''/'' (path_parts f))"

definition path_name :: "string \<Rightarrow> string" where
  "path_name f = (if path_parts f = [] then [] else last (path_parts f))"

text \<open>\<open>s.rfind(c)\<close>: the last index of \<open>c\<close>, \<open>None\<close> for Python's \<open>-1\<close>.\<close>

primrec rfind_char :: "char \<Rightarrow> string \<Rightarrow> nat option" where
  "rfind_char c [] = None"
| "rfind_char c (x # xs) =
     (case rfind_char c xs of
        Some i \<Rightarrow> Some (Suc i)
      | None \<Rightarrow> if x = c then Some 0 else None)"

text \<open>
  \<open>Path(f).suffix\<close>: the name from its last dot on, when that dot is neither the first
  nor the last character of the name.
\<close>

definition suffix_of_name :: "string \<Rightarrow> string" where
  "suffix_of_name name =
     (case rfind_char CHR ''.'' name of
        None \<Rightarrow> []
      | Some i \<Rightarrow> if 0 < i \<and> i + 1 < length name then drop i name else [])"

definition path_suffix :: "string \<Rightarrow> string" where
  "path_suffix f = suffix_of_name (path_name f)"

section \<open>Regular expressions: the fragment of \<open>re\<close> that \<open>FUNC_PATTERNS\<close> uses\<close>

text \<open>
  Word characters (\<open>\w\<close>) are the alphanumeric code points and the underscore; below 256
  these are the ASCII letters and digits, the Latin-1 letters, and the superscript digits and
  fractions.
\<close>

definition is_word :: "char \<Rightarrow> bool" where
  "is_word c =
     (let n = (of_char c :: nat)
      in (48 \<le> n \<and> n \<le> 57) \<or> (65 \<le> n \<and> n \<le> 90) \<or> n = 95 \<or> (97 \<le> n \<and> n \<le> 122)
         \<or> n = 170 \<or> n = 178 \<or> n = 179 \<or> n = 181 \<or> n = 185 \<or> n = 186
         \<or> (188 \<le> n \<and> n \<le> 190) \<or> (192 \<le> n \<and> n \<le> 214) \<or> (216 \<le> n \<and> n \<le> 246)
         \<or> 248 \<le> n)"

datatype char_class = Space | Word

fun in_class :: "char_class \<Rightarrow> char \<Rightarrow> bool" where
  "in_class Space c = is_space c"
| "in_class Word c = is_word c"

text \<open>
  \<open>Lit\<close> is a literal matched without regard to case (the patterns are compiled with
  \<open>re.I\<close>), \<open>Star\<close> and \<open>Plus\<close> are the greedy \<open>*\<close> and \<open>+\<close> of a character class,
  \<open>Boundary\<close> is \<open>\b\<close>.
\<close>

datatype regex =
    Lit string
  | Star char_class
  | Plus char_class
  | Boundary
  | Seq regex regex
  | Alt regex regex

text \<open>
  A position in the subject is the character before it (if any) and the text after it.
\<close>

type_synonym position = "char option \<times> string"

definition at_boundary :: "position \<Rightarrow> bool" where
  "at_boundary pos =
     ((case fst pos of None \<Rightarrow> False | Some c \<Rightarrow> is_word c) \<noteq>
      (case snd pos of [] \<Rightarrow> False | c # _ \<Rightarrow> is_word c))"

fun match_lit :: "string \<Rightarrow> position \<Rightarrow> position option" where
  "match_lit [] pos = Some pos"
| "match_lit (l # ls) (prev, []) = None"
| "match_lit (l # ls) (prev, c # cs) =
     (if lower_char c = lower_char l then match_lit ls (Some c, cs) else None)"

text \<open>
  The positions after 0, 1, ... characters of the class, the longest run last.
\<close>

fun class_runs :: "char_class \<Rightarrow> position \<Rightarrow> position list" where
  "class_runs k (prev, []) = [(prev, [])]"
| "class_runs k (prev, c # cs) =
     (if in_class k c then (prev, c # cs) # class_runs k (Some c, cs) else [(prev, c # cs)])"

text \<open>
  All the ways a pattern matches at a position, as the positions where the match ends, in
  the order in which the backtracking matcher tries them (greedy repetition: longest first).
\<close>

fun regex_match :: "regex \<Rightarrow> position \<Rightarrow> position list" where
  "regex_match (Lit l) pos = (case match_lit l pos of None \<Rightarrow> [] | Some q \<Rightarrow> [q])"
| "regex_match (Star k) pos = rev (class_runs k pos)"
| "regex_match (Plus k) pos = rev (tl (class_runs k pos))"
| "regex_match Boundary pos = (if at_boundary pos then [pos] else [])"
| "regex_match (Seq a b) pos = concat (map (regex_match b) (regex_match a pos))"
| "regex_match (Alt a b) pos = regex_match a pos @ regex_match b pos"

text \<open>
  \<open>len(pat.findall(text))\<close>: the scan from left to right for matches that do not overlap.
  After a match the scan goes on where the match ended; the patterns here match no empty
  string, and after an empty match the scan would move one character on.
\<close>

function count_matches :: "regex \<Rightarrow> position \<Rightarrow> nat" where
  "count_matches r (prev, s) =
     (case regex_match r (prev, s) of
        [] \<Rightarrow> (case s of [] \<Rightarrow> 0 | c # cs \<Rightarrow> count_matches r (Some c, cs))
      | q # _ \<Rightarrow>
          if length (snd q) < length s then 1 + count_matches r q
          else (case s of [] \<Rightarrow> 1 | c # cs \<Rightarrow> 1 + count_matches r (Some c, cs)))"
  by pat_completeness auto
termination
  by (relation "measure (\<lambda>(r, pos). length (snd pos))") auto

definition findall_count :: "regex \<Rightarrow> string \<Rightarrow> nat" where
  "findall_count r text = count_matches r (None, text)"

text \<open>
  The three patterns: \<open>\bdef\s+\w+\s*\(\<close>, \<open>\bfunction\b|=>\s*\(\<close> and
  \<open>\b(class|interface)\s+\w+\b\<close>.
\<close>

definition FUNC_PATTERNS :: "regex list" where
  "FUNC_PATTERNS =
     [Seq Boundary (Seq (Lit ''def'') (Seq (Plus Space) (Seq (Plus Word) (Seq (Star Space) (Lit ''(''))))),
      Alt (Seq Boundary (Seq (Lit ''function'') Boundary)) (Seq (Lit ''=>'') (Seq (Star Space) (Lit ''(''))),
      Seq Boundary (Seq (Alt (Lit ''class'') (Lit ''interface'')) (Seq (Plus Space) (Seq (Plus Word) Boundary)))]"

primrec count_functions_loop :: "nat \<Rightarrow> string \<Rightarrow> regex list \<Rightarrow> nat" where
  "count_functions_loop n text [] = n"
| "count_functions_loop n text (pat # pats) =
     count_functions_loop (n + findall_count pat text) text pats"

definition count_functions :: "string \<Rightarrow> nat" where
  "count_functions text = count_functions_loop 0 text FUNC_PATTERNS"

section \<open>Values, dictionaries and exceptions\<close>

text \<open>
  The exceptions that the operations of the model raise.  Each is a subclass of
  \<open>Exception\<close>, so the clause \<open>except Exception\<close> catches every one of them.
\<close>

datatype py_exception =
  OSError | UnicodeError | ValueError | LookupError | KeyError | TypeError
  | ZeroDivisionError | OverflowError

datatype pyval = PStr string | PInt int | PFloat pyfloat | PNone

text \<open>A \<open>dict\<close> with string keys, in insertion order.\<close>

type_synonym pydict = "(string \<times> pyval) list"

text \<open>\<open>d[k]\<close>, which raises \<open>KeyError\<close> on a missing key, and \<open>d.get(k, default)\<close>.\<close>

definition dict_getitem :: "pydict \<Rightarrow> string \<Rightarrow> py_exception + pyval" where
  "dict_getitem d k = (case map_of d k of None \<Rightarrow> Inl KeyError | Some v \<Rightarrow> Inr v)"

definition dict_get :: "pydict \<Rightarrow> string \<Rightarrow> pyval \<Rightarrow> pyval" where
  "dict_get d k dflt = (case map_of d k of None \<Rightarrow> dflt | Some v \<Rightarrow> v)"

text \<open>\<open>v + n\<close> for an integer \<open>n\<close>.\<close>

fun py_add_int :: "pyval \<Rightarrow> int \<Rightarrow> py_exception + pyval" where
  "py_add_int (PInt m) n = Inr (PInt (m + n))"
| "py_add_int (PFloat x) n = Inr (PFloat (x + of_int n))"
| "py_add_int (PStr s) n = Inl TypeError"
| "py_add_int PNone n = Inl TypeError"

text \<open>\<open>d[k] += n\<close>.\<close>

definition dict_iadd :: "pydict \<Rightarrow> string \<Rightarrow> int \<Rightarrow> py_exception + pydict" where
  "dict_iadd d k n =
     (case dict_getitem d k of
        Inl e \<Rightarrow> Inl e
      | Inr v \<Rightarrow> (case py_add_int v n of
                    Inl e \<Rightarrow> Inl e
                  | Inr v' \<Rightarrow> Inr (AList.update k v' d)))"

section \<open>The file system and \<open>read_lines\<close>\<close>

text \<open>
  The two ways the reporter opens a file: \<open>encoding='utf-8', errors='ignore'\<close> and
  \<open>encoding='latin-1', errors='ignore'\<close>.
\<close>

datatype encoding = Utf8_ignore | Latin1_ignore

text \<open>
  What the program sees of the file system, by path as \<open>str(Path(f))\<close> prints it: the
  decoded text of a file or the exception of the read, and the answers of \<open>exists()\<close>
  and \<open>is_file()\<close>.
\<close>

record filesystem =
  fs_read_text :: "string \<Rightarrow> encoding \<Rightarrow> py_exception + string"
  fs_exists :: "string \<Rightarrow> py_exception + bool"
  fs_is_file :: "string \<Rightarrow> py_exception + bool"

definition read_lines :: "filesystem \<Rightarrow> string \<Rightarrow> py_exception + string list" where
  "read_lines fs f =
     (case fs_read_text fs (path_str f) Utf8_ignore of
        Inr text \<Rightarrow> Inr (splitlines text)
      | Inl e \<Rightarrow>
          (case fs_read_text fs (path_str f) Latin1_ignore of
             Inr text \<Rightarrow> Inr (splitlines text)
           | Inl e' \<Rightarrow> Inr []))"

section \<open>\<open>analyze_files\<close>\<close>

text \<open>\<open>p.suffix.lower() or '<none>'\<close>.\<close>

definition ext_of :: "string \<Rightarrow> string" where
  "ext_of f = (let e = py_lower (path_suffix f) in if e = [] then ''<none>'' else e)"

text \<open>The dictionary \<open>pf\<close> of one file.\<close>

definition per_file_record :: "string \<Rightarrow> string list \<Rightarrow> pydict" where
  "per_file_record f lines =
     (let ext = ext_of f;
          total_lines = length lines;
          comments = estimate_comment_lines ext lines;
          text = join [CHR 0x0A] lines;
          func_count = count_functions text;
          complexity = estimate_complexity lines
      in [(''file'', PStr f),
          (''ext'', PStr ext),
          (''total_lines'', PInt (int total_lines)),
          (''comment_lines'', PInt (int comments)),
          (''function_count'', PInt (int func_count)),
          (''complexity'', PFloat complexity)])"

text \<open>The fresh aggregate that \<open>setdefault\<close> stores for a new extension.\<close>

definition new_agg :: "string \<Rightarrow> pydict" where
  "new_agg ext =
     [(''ext'', PStr ext), (''file_count'', PInt 0), (''total_lines'', PInt 0),
      (''comment_lines'', PInt 0), (''function_count'', PInt 0)]"

type_synonym by_ext_dict = "(string \<times> pydict) list"

text \<open>
  \<open>by_ext.setdefault(ext, default)\<close>: the dictionary, with the default appended under a
  new key, and the value now stored under the key.
\<close>

definition setdefault :: "by_ext_dict \<Rightarrow> string \<Rightarrow> pydict \<Rightarrow> by_ext_dict \<times> pydict" where
  "setdefault by_ext ext dflt =
     (case map_of by_ext ext of
        Some agg \<Rightarrow> (by_ext, agg)
      | None \<Rightarrow> (by_ext @ [(ext, dflt)], dflt))"

text \<open>
  The four updates of the aggregate.  The source mutates the dictionary that \<open>by_ext\<close>
  holds; the model stores the updated aggregate back under its key.
\<close>

definition bump_agg :: "pydict \<Rightarrow> nat \<Rightarrow> nat \<Rightarrow> nat \<Rightarrow> py_exception + pydict" where
  "bump_agg agg total_lines comments func_count =
     (case dict_iadd agg ''file_count'' 1 of
        Inl e \<Rightarrow> Inl e
      | Inr a1 \<Rightarrow>
     (case dict_iadd a1 ''total_lines'' (int total_lines) of
        Inl e \<Rightarrow> Inl e
      | Inr a2 \<Rightarrow>
     (case dict_iadd a2 ''comment_lines'' (int comments) of
        Inl e \<Rightarrow> Inl e
      | Inr a3 \<Rightarrow> dict_iadd a3 ''function_count'' (int func_count))))"

text \<open>One iteration of the loop over the files; the state is \<open>(by_ext, per_file)\<close>.\<close>

definition analyze_step ::
  "filesystem \<Rightarrow> by_ext_dict \<times> pydict list \<Rightarrow> string \<Rightarrow> py_exception + (by_ext_dict \<times> pydict list)"
where
  "analyze_step fs st f =
     (case read_lines fs f of
        Inl e \<Rightarrow> Inl e
      | Inr lines \<Rightarrow>
          (let ext = ext_of f;
               total_lines = length lines;
               comments = estimate_comment_lines ext lines;
               func_count = count_functions (join [CHR 0x0A] lines);
               pf = per_file_record f lines;
               per_file = snd st @ [pf];
               (by_ext, agg) = setdefault (fst st) ext (new_agg ext)
           in case bump_agg agg total_lines comments func_count of
                Inl e \<Rightarrow> Inl e
              | Inr agg' \<Rightarrow> Inr (AList.update ext agg' by_ext, per_file)))"

primrec analyze_loop ::
  "filesystem \<Rightarrow> by_ext_dict \<times> pydict list \<Rightarrow> string list \<Rightarrow> py_exception + (by_ext_dict \<times> pydict list)"
where
  "analyze_loop fs st [] = Inr st"
| "analyze_loop fs st (f # files) =
     (case analyze_step fs st f of
        Inl e \<Rightarrow> Inl e
      | Inr st' \<Rightarrow> analyze_loop fs st' files)"

definition analyze_files ::
  "filesystem \<Rightarrow> string list \<Rightarrow> py_exception + (by_ext_dict \<times> pydict list)"
where
  "analyze_files fs files = analyze_loop fs ([], []) files"

section \<open>\<open>list_changed_files\<close>\<close>

definition SUPPORTED_EXTS :: "string list" where
  "SUPPORTED_EXTS =
     [''.py'', ''.js'', ''.ts'', ''.jsx'', ''.tsx'', ''.mjs'', ''.cjs'',
      ''.java'', ''.c'', ''.h'', ''.cpp'', ''.hpp'', ''.cc'', ''.cs'', ''.go'', ''.rb'', ''.php'',
      ''.rs'', ''.kt'', ''.swift'',
      ''.m'', ''.mm'', ''.scala'', ''.sh'', ''.bash'', ''.zsh'', ''.ps1'', ''.psm1'', ''.pl'',
      ''.pm'', ''.r'', ''.jl'', ''.lua'',
      ''.ex'', ''.exs'', ''.hs'', ''.erl'', ''.clj'', ''.groovy'', ''.dart'', ''.sql'', ''.css'',
      ''.scss'', ''.sass'', ''.less'',
      ''.html'', ''.vue'', ''.svelte'', ''.hbs'', ''.ejs'', ''.jinja'', ''.jinja2'', ''.njk'']"

text \<open>
  \<open>shlex.quote\<close>: the empty string becomes \<open>''\<close>, a string of safe characters (ASCII
  letters and digits and \<open>_@%+=:,./-\<close>) is kept, and any other string is put in single
  quotes, each single quote of it replaced by \<open>'"'"'\<close>.
\<close>

definition shlex_safe :: "char \<Rightarrow> bool" where
  "shlex_safe c =
     (let n = (of_char c :: nat)
      in (48 \<le> n \<and> n \<le> 57) \<or> (65 \<le> n \<and> n \<le> 90) \<or> (97 \<le> n \<and> n \<le> 122)
         \<or> c \<in> set ''_@%+=:,./-'')"

definition shlex_quote :: "string \<Rightarrow> string" where
  "shlex_quote s =
     (if s = [] then [CHR 0x27, CHR 0x27]
      else if list_all shlex_safe s then s
      else [CHR 0x27]
           @ concat (map (\<lambda>c. if c = CHR 0x27
                               then [CHR 0x27, CHR 0x22, CHR 0x27, CHR 0x22, CHR 0x27]
                               else [c]) s)
           @ [CHR 0x27])"

definition diff_command :: "string \<Rightarrow> string \<Rightarrow> string" where
  "diff_command base head =
     ''git diff --name-only --diff-filter=ACMRTUXB '' @ shlex_quote base @ ''..'' @ shlex_quote head"

text \<open>
  The subprocess runner \<open>run\<close> is the outside world: a function from the command line to
  the exit code, the standard output and the standard error, or to the exception of the
  call.  The warning that the source prints on a failed diff is not part of the result.
\<close>

type_synonym runner = "string \<Rightarrow> py_exception + (int \<times> string \<times> string)"

text \<open>The loop that keeps the supported, existing regular files.\<close>

fun changed_loop :: "filesystem \<Rightarrow> string list \<Rightarrow> string list \<Rightarrow> py_exception + string list" where
  "changed_loop fs result [] = Inr result"
| "changed_loop fs result (f # files) =
     (if py_lower (path_suffix f) \<in> set SUPPORTED_EXTS then
        (case fs_exists fs (path_str f) of
           Inl e \<Rightarrow> Inl e
         | Inr ex \<Rightarrow>
             if ex then
               (case fs_is_file fs (path_str f) of
                  Inl e \<Rightarrow> Inl e
                | Inr isf \<Rightarrow>
                    if isf then changed_loop fs (result @ [path_str f]) files
                    else changed_loop fs result files)
             else changed_loop fs result files)
      else changed_loop fs result files)"

definition list_changed_files ::
  "runner \<Rightarrow> filesystem \<Rightarrow> string \<Rightarrow> string \<Rightarrow> py_exception + string list"
where
  "list_changed_files run fs base head =
     (case run (diff_command base head) of
        Inl e \<Rightarrow> Inl e
      | Inr (code, out, err) \<Rightarrow>
          (case (if code \<noteq> 0
                 then (case run ''git diff --name-only'' of
                         Inl e \<Rightarrow> Inl e
                       | Inr (code2, out2, err2) \<Rightarrow> Inr out2)
                 else Inr out) of
             Inl e \<Rightarrow> Inl e
           | Inr out' \<Rightarrow>
               changed_loop fs []
                 (map strip (filter (\<lambda>line. strip line \<noteq> []) (splitlines out')))))"

section \<open>Files as bytes\<close>









section \<open>Notions used to state the properties\<close>

text \<open>The lines that \<open>read_lines\<close> returns for a file.\<close>

definition file_lines :: "filesystem \<Rightarrow> string \<Rightarrow> string list" where
  "file_lines fs f = (case read_lines fs f of Inr ls \<Rightarrow> ls | Inl e \<Rightarrow> [])"

text \<open>An aggregate with given counts.\<close>

definition agg_of :: "string \<Rightarrow> int \<Rightarrow> int \<Rightarrow> int \<Rightarrow> int \<Rightarrow> pydict" where
  "agg_of ext file_count total_lines comment_lines function_count =
     [(''ext'', PStr ext), (''file_count'', PInt file_count), (''total_lines'', PInt total_lines),
      (''comment_lines'', PInt comment_lines), (''function_count'', PInt function_count)]"

text \<open>An integer field of a record, and the records of an extension.\<close>

definition int_field :: "pydict \<Rightarrow> string \<Rightarrow> int" where
  "int_field d k = (case map_of d k of Some (PInt n) \<Rightarrow> n | _ \<Rightarrow> 0)"

definition has_ext :: "string \<Rightarrow> pydict \<Rightarrow> bool" where
  "has_ext ext pf = (map_of pf ''ext'' = Some (PStr ext))"

definition field_sum :: "string \<Rightarrow> string \<Rightarrow> pydict list \<Rightarrow> int" where
  "field_sum k ext per_file = sum_list (map (\<lambda>pf. int_field pf k) (filter (has_ext ext) per_file))"

text \<open>The aggregate that the per-file records of an extension add up to.\<close>

definition summary_of :: "pydict list \<Rightarrow> string \<Rightarrow> pydict" where
  "summary_of per_file ext =
     agg_of ext (int (length (filter (has_ext ext) per_file)))
       (field_sum ''total_lines'' ext per_file)
       (field_sum ''comment_lines'' ext per_file)
       (field_sum ''function_count'' ext per_file)"

text \<open>The invariant of the loop of \<open>analyze_files\<close>.\<close>

definition agg_inv :: "by_ext_dict \<Rightarrow> pydict list \<Rightarrow> bool" where
  "agg_inv by_ext per_file =
     (distinct (map fst by_ext) \<and>
      (\<forall>ext. map_of by_ext ext =
         (if \<exists>pf \<in> set per_file. has_ext ext pf then Some (summary_of per_file ext) else None)))"

text \<open>
  The columns of the per-file table of the main engine, as the command line lists them for
  \<open>--details\<close> and \<open>--excel\<close>.
\<close>

definition engine_headers :: "string list" where
  "engine_headers =
     [''path'', ''ext'', ''total_lines'', ''comment_lines'', ''function_count'', ''complexity'',
      ''function_avg_length'', ''todo_count'', ''blank_lines'', ''comment_only_lines'',
      ''code_lines'']"

text \<open>The keys of the dictionary \<open>pf\<close> of the reporter.\<close>

definition reporter_fields :: "string list" where
  "reporter_fields =
     [''file'', ''ext'', ''total_lines'', ''comment_lines'', ''function_count'', ''complexity'']"

text \<open>
  A small file system for the examples: a Python file, a JavaScript file, and no other
  readable file.
\<close>

definition example_fs :: filesystem where
  "example_fs =
     \<lparr> fs_read_text = (\<lambda>p enc.
          if p = ''a.py'' then Inr (''# c'' @ [CHR 0x0A] @ ''def f(x):'' @ [CHR 0x0A] @ ''  if x: pass'')
          else if p = ''b.js'' then Inr (''/* x */'' @ [CHR 0x0A] @ ''y = 1;'')
          else Inl OSError),
       fs_exists = (\<lambda>p. Inr (p = ''a.py'' \<or> p = ''b.js'' \<or> p = ''img.png'')),
       fs_is_file = (\<lambda>p. Inr True) \<rparr>"

text \<open>
  A second file system: it differs from the first on a path that is not analysed and in
  what exists.
\<close>

definition example_fs2 :: filesystem where
  "example_fs2 =
     \<lparr> fs_read_text = (\<lambda>p enc.
          if p = ''notes.txt'' then Inr ''remember'' else fs_read_text example_fs p enc),
       fs_exists = (\<lambda>p. Inr False),
       fs_is_file = (\<lambda>p. Inl OSError) \<rparr>"

text \<open>The records of the reporter for the two files of the example.\<close>

definition example_record :: pydict where
  "example_record =
     [(''file'', PStr ''a.py''), (''ext'', PStr ''.py''), (''total_lines'', PInt 3),
      (''comment_lines'', PInt 1), (''function_count'', PInt 1), (''complexity'', PFloat 1)]"

definition example_record_js :: pydict where
  "example_record_js =
     [(''file'', PStr ''b.js''), (''ext'', PStr ''.js''), (''total_lines'', PInt 2),
      (''comment_lines'', PInt 2), (''function_count'', PInt 0), (''complexity'', PFloat 0)]"

text \<open>
  A runner for the examples: the diff succeeds and lists four paths, one of them an image
  and one of them a file that does not exist.
\<close>

definition example_run :: runner where
  "example_run cmd =
     Inr (0, ''a.py'' @ [CHR 0x0A] @ ''img.png'' @ [CHR 0x0A] @ '' ./b.js '' @ [CHR 0x0A]
             @ ''gone.py'' @ [CHR 0x0A], [])"

text \<open>
  The kinds of line of a synthetic file, for a classifier key \<open>k\<close> (the lowercased
  extension): blank lines, single-line comments, lines that start with a block-comment
  token, and code lines, which are the lines of none of the other kinds.
\<close>

definition is_blank :: "string \<Rightarrow> bool" where
  "is_blank raw = (strip raw = [])"

definition is_line_comment :: "string \<Rightarrow> string \<Rightarrow> bool" where
  "is_line_comment k raw =
     (if k = ''.py'' then startswith (strip raw) ''#'' else startswith (strip raw) ''//'')"

definition starts_block :: "string \<Rightarrow> string \<Rightarrow> bool" where
  "starts_block k raw =
     (if k = ''.py''
      then startswith (strip raw) triple_single \<or> startswith (strip raw) triple_double
      else startswith (strip raw) ''/*'' \<or> startswith (strip raw) ''<!--'')"

definition is_code_line :: "string \<Rightarrow> string \<Rightarrow> bool" where
  "is_code_line k raw = (\<not> is_blank raw \<and> \<not> is_line_comment k raw \<and> \<not> starts_block k raw)"

text \<open>
  The first line of a block comment of more than one line: it starts with a block-comment
  token and, for Python, does not end with a triple quote.
\<close>

definition opens_block :: "string \<Rightarrow> string \<Rightarrow> bool" where
  "opens_block k raw =
     (if k = ''.py''
      then starts_block k raw \<and>
           \<not> (endswith (strip raw) triple_single \<or> endswith (strip raw) triple_double)
      else starts_block k raw)"

text \<open>A line that holds none of the tokens that end a block.\<close>

definition no_block_end :: "string \<Rightarrow> bool" where
  "no_block_end raw = (\<not> list_ex (\<lambda>tok. contains tok (strip raw)) block_end)"

text \<open>
  Two synthetic files: a JavaScript file with one blank line, one single-line comment, two
  code lines and a block comment of three lines, and a Python docstring of three lines.
\<close>

definition synthetic_js :: "string list" where
  "synthetic_js = [[], ''// setup'', ''x = 1;'', ''/*'', '' * note'', '' */'', ''y = 2;'']"

definition synthetic_py :: "string list" where
  "synthetic_py = [triple_double, ''doc'', triple_double]"

section \<open>Properties of the line classifier\<close>

text \<open>
  C2 (the code departs from the claim).  The claim: a line whose block-comment start and end
  tokens both appear on it leaves the classifier in the state Normal, so that a following
  code line is not counted as a comment.  For an extension other than \<open>.py\<close> the source
  sets \<open>in_block\<close> on every line that starts with \<open>/*\<close>, closed or not: after the
  one-line comment \<open>/* note */\<close> the state is InBlockComment and the code line
  \<open>x = 1;\<close> is counted as a comment, so the function returns 2 where the claim gives 1.
  The branch for \<open>.py\<close> of the same function does look for the end of the block on the
  line: after a one-line docstring the state is Normal and the result is 1.
\<close>

theorem one_line_block_comment_stays_open:
  "ecl_step ''.js'' (0, False) ''/* note */'' = (1, True) \<and>
   estimate_comment_lines ''.js'' [''/* note */'', ''x = 1;''] = 2 \<and>
   estimate_comment_lines ''.js'' [''x = 1;''] = 0 \<and>
   ecl_step ''.py'' (0, False) (triple_double @ ''note'' @ triple_double) = (1, False) \<and>
   estimate_comment_lines ''.py'' [triple_double @ ''note'' @ triple_double, ''x = 1''] = 1"
  by code_simp

section \<open>Properties of the complexity estimate\<close>

lemma complexity_loop_sum:
  "complexity_loop score lines = score + sum_list (map (\<lambda>raw. line_score (padded_line raw)) lines)"
  by (induction lines arbitrary: score) simp_all

lemma distinct_COMPLEXITY_TOKENS: "distinct COMPLEXITY_TOKENS"
  by (simp add: COMPLEXITY_TOKENS_def)

lemma line_score_card:
  "line_score s = card {tok \<in> set COMPLEXITY_TOKENS. contains tok s}"
proof -
  have "line_score s = card ({tok. contains tok s} \<inter> set COMPLEXITY_TOKENS)"
    unfolding line_score_def
    by (rule distinct_length_filter [OF distinct_COMPLEXITY_TOKENS])
  also have "{tok. contains tok s} \<inter> set COMPLEXITY_TOKENS =
      {tok \<in> set COMPLEXITY_TOKENS. contains tok s}"
    by blast
  finally show ?thesis .
qed

text \<open>
  C3, as the claim states it, fails: the line \<open>y = a if b else c if d else e\<close> holds the
  token \<open>" if "\<close> twice and adds 1 to the score, not 2; and the comment line
  \<open># retry if it fails\<close>, which the classifier counts as a comment, adds 1, not 0.
\<close>

theorem complexity_counts_presence_counterexample:
  "spec_occurrences '' if '' (padded_line ''y = a if b else c if d else e'') = 2 \<and>
   spec_line_occurrences (padded_line ''y = a if b else c if d else e'') = 2 \<and>
   estimate_complexity [''y = a if b else c if d else e''] = 1 \<and>
   estimate_comment_lines ''.py'' [''# retry if it fails''] = 1 \<and>
   estimate_complexity [''# retry if it fails''] = 1"
  by code_simp

text \<open>
  C3, amended: the score is a non-negative number, the sum over all the lines of the file
  (comment lines included) of the number of vocabulary tokens that occur in the line, once
  it is trimmed, padded with a space on each side and lowercased.  A token counts once for a
  line, however often it occurs there.
\<close>

theorem estimate_complexity_presence_sum:
  "estimate_complexity lines =
     of_nat (sum_list (map (\<lambda>raw. card {tok \<in> set COMPLEXITY_TOKENS. contains tok (padded_line raw)})
       lines)) \<and>
   0 \<le> estimate_complexity lines"
  by (simp add: estimate_complexity_def complexity_loop_sum line_score_card)

section \<open>Properties of \<open>analyze_files\<close>\<close>


lemma read_lines_total: "read_lines fs f = Inr (file_lines fs f)"
  by (simp add: read_lines_def file_lines_def split: sum.splits)

lemma bump_agg_of:
  "bump_agg (agg_of e a b c d) t cm fc =
     Inr (agg_of e (a + 1) (b + int t) (c + int cm) (d + int fc))"
  by (simp add: bump_agg_def dict_iadd_def dict_getitem_def agg_of_def)

lemma new_agg_of: "new_agg e = agg_of e 0 0 0 0"
  by (simp add: new_agg_def agg_of_def)

lemma has_ext_record: "has_ext e (per_file_record f ls) = (e = ext_of f)"
  by (auto simp: has_ext_def per_file_record_def Let_def)

lemma int_field_record:
  "int_field (per_file_record f ls) ''total_lines'' = int (length ls)"
  "int_field (per_file_record f ls) ''comment_lines'' = int (estimate_comment_lines (ext_of f) ls)"
  "int_field (per_file_record f ls) ''function_count'' = int (count_functions (join [CHR 0x0A] ls))"
  by (simp_all add: int_field_def per_file_record_def Let_def)

lemma summary_of_snoc_same:
  "summary_of (per_file @ [per_file_record f ls]) (ext_of f) =
     agg_of (ext_of f)
       (int (length (filter (has_ext (ext_of f)) per_file)) + 1)
       (field_sum ''total_lines'' (ext_of f) per_file + int (length ls))
       (field_sum ''comment_lines'' (ext_of f) per_file + int (estimate_comment_lines (ext_of f) ls))
       (field_sum ''function_count'' (ext_of f) per_file + int (count_functions (join [CHR 0x0A] ls)))"
  by (simp add: summary_of_def field_sum_def has_ext_record int_field_record add.commute)

lemma summary_of_snoc_other:
  "e \<noteq> ext_of f \<Longrightarrow> summary_of (per_file @ [per_file_record f ls]) e = summary_of per_file e"
  by (simp add: summary_of_def field_sum_def has_ext_record)

lemma summary_of_none:
  "\<not> (\<exists>pf \<in> set per_file. has_ext e pf) \<Longrightarrow> summary_of per_file e = agg_of e 0 0 0 0"
proof -
  assume "\<not> (\<exists>pf \<in> set per_file. has_ext e pf)"
  then have "filter (has_ext e) per_file = []"
    by (simp add: filter_empty_conv)
  then show ?thesis
    by (simp add: summary_of_def field_sum_def)
qed

lemma analyze_step_inv:
  assumes inv: "agg_inv by_ext per_file"
  shows "\<exists>by_ext'. analyze_step fs (by_ext, per_file) f =
            Inr (by_ext', per_file @ [per_file_record f (file_lines fs f)]) \<and>
          agg_inv by_ext' (per_file @ [per_file_record f (file_lines fs f)])"
proof -
  let ?e = "ext_of f"
  let ?ls = "file_lines fs f"
  let ?pf = "per_file_record f ?ls"
  let ?new = "summary_of (per_file @ [?pf]) ?e"
  from inv have dist: "distinct (map fst by_ext)"
    and look: "\<And>x. map_of by_ext x =
        (if \<exists>pf \<in> set per_file. has_ext x pf then Some (summary_of per_file x) else None)"
    by (simp_all add: agg_inv_def)
  have step: "\<exists>by_ext'. analyze_step fs (by_ext, per_file) f = Inr (by_ext', per_file @ [?pf]) \<and>
      distinct (map fst by_ext') \<and> map_of by_ext' = (map_of by_ext)(?e \<mapsto> ?new)"
  proof (cases "\<exists>pf \<in> set per_file. has_ext ?e pf")
    case True
    then have m: "map_of by_ext ?e = Some (summary_of per_file ?e)"
      by (simp add: look)
    have "analyze_step fs (by_ext, per_file) f =
        Inr (AList.update ?e ?new by_ext, per_file @ [?pf])"
      by (simp add: analyze_step_def read_lines_total setdefault_def m Let_def
          summary_of_def [of per_file] bump_agg_of summary_of_snoc_same)
    then show ?thesis
      using dist by (auto simp: update_conv' distinct_update)
  next
    case False
    then have m: "map_of by_ext ?e = None"
      by (simp add: look)
    then have notin: "?e \<notin> fst ` set by_ext"
      by (simp add: map_of_eq_None_iff)
    have fe: "filter (has_ext ?e) per_file = []"
      using False by (simp add: filter_empty_conv)
    have "analyze_step fs (by_ext, per_file) f =
        Inr (AList.update ?e ?new (by_ext @ [(?e, new_agg ?e)]), per_file @ [?pf])"
      by (simp add: analyze_step_def read_lines_total setdefault_def m Let_def
          new_agg_of bump_agg_of summary_of_snoc_same field_sum_def fe)
    moreover have "distinct (map fst (AList.update ?e ?new (by_ext @ [(?e, new_agg ?e)])))"
      using dist notin by (simp add: distinct_update)
    moreover have "map_of (AList.update ?e ?new (by_ext @ [(?e, new_agg ?e)])) =
        (map_of by_ext)(?e \<mapsto> ?new)"
      by (rule ext) (simp add: update_conv' map_add_def split: option.splits)
    ultimately show ?thesis by blast
  qed
  then obtain by_ext' where
    r: "analyze_step fs (by_ext, per_file) f = Inr (by_ext', per_file @ [?pf])" and
    d: "distinct (map fst by_ext')" and
    m: "map_of by_ext' = (map_of by_ext)(?e \<mapsto> ?new)"
    by blast
  have "agg_inv by_ext' (per_file @ [?pf])"
    unfolding agg_inv_def
  proof (intro conjI allI)
    show "distinct (map fst by_ext')" by (rule d)
  next
    fix x
    show "map_of by_ext' x =
        (if \<exists>pf \<in> set (per_file @ [?pf]). has_ext x pf
         then Some (summary_of (per_file @ [?pf]) x) else None)"
    proof (cases "x = ?e")
      case True
      then show ?thesis by (simp add: m has_ext_record)
    next
      case False
      then show ?thesis
        by (simp add: m look has_ext_record summary_of_snoc_other)
    qed
  qed
  with r show ?thesis by blast
qed

lemma analyze_loop_inv:
  "agg_inv by_ext per_file \<Longrightarrow>
   \<exists>by_ext'. analyze_loop fs (by_ext, per_file) files =
       Inr (by_ext', per_file @ map (\<lambda>f. per_file_record f (file_lines fs f)) files) \<and>
     agg_inv by_ext' (per_file @ map (\<lambda>f. per_file_record f (file_lines fs f)) files)"
proof (induction files arbitrary: by_ext per_file)
  case Nil
  then show ?case by simp
next
  case (Cons f files)
  from analyze_step_inv [OF Cons.prems, of fs f] obtain b1 where
    s: "analyze_step fs (by_ext, per_file) f =
          Inr (b1, per_file @ [per_file_record f (file_lines fs f)])" and
    i: "agg_inv b1 (per_file @ [per_file_record f (file_lines fs f)])"
    by blast
  from Cons.IH [OF i] show ?case
    by (simp add: s)
qed

lemma agg_inv_empty: "agg_inv [] []"
  by (simp add: agg_inv_def)

lemma analyze_files_result:
  "\<exists>by_ext. analyze_files fs files =
       Inr (by_ext, map (\<lambda>f. per_file_record f (file_lines fs f)) files) \<and>
     agg_inv by_ext (map (\<lambda>f. per_file_record f (file_lines fs f)) files)"
  using analyze_loop_inv [OF agg_inv_empty, of fs files]
  by (simp add: analyze_files_def)






lemma per_file_record_keys: "map fst (per_file_record f ls) = reporter_fields"
  by (simp add: per_file_record_def reporter_fields_def Let_def)

lemma read_lines_cong:
  assumes "\<forall>enc. fs_read_text fs (path_str f) enc = fs_read_text fs' (path_str f) enc"
  shows "read_lines fs f = read_lines fs' f"
  using assms by (simp add: read_lines_def split: sum.splits)

lemma analyze_step_cong:
  assumes "\<forall>enc. fs_read_text fs (path_str f) enc = fs_read_text fs' (path_str f) enc"
  shows "analyze_step fs st f = analyze_step fs' st f"
  by (simp add: analyze_step_def read_lines_cong [OF assms])

lemma analyze_loop_cong:
  "\<forall>f \<in> set files. \<forall>enc. fs_read_text fs (path_str f) enc = fs_read_text fs' (path_str f) enc \<Longrightarrow>
   analyze_loop fs st files = analyze_loop fs' st files"
proof (induction files arbitrary: st)
  case Nil
  show ?case by simp
next
  case (Cons f files)
  from Cons.prems have "analyze_step fs st f = analyze_step fs' st f"
    by (intro analyze_step_cong) simp
  moreover from Cons.prems have "\<And>st'. analyze_loop fs st' files = analyze_loop fs' st' files"
    by (intro Cons.IH) simp
  ultimately show ?case
    by (simp split: sum.splits)
qed

text \<open>
  C1, amended: \<open>analyze_files\<close> emits one record for each listed file, in the order of
  the list, and the record of a file holds exactly the six fields \<open>file\<close>, \<open>ext\<close>,
  \<open>total_lines\<close>, \<open>comment_lines\<close>, \<open>function_count\<close> and \<open>complexity\<close>, with
  the path as listed and the metrics of the lines read from it.  Of the columns of the engine
  the record has \<open>ext\<close>, \<open>total_lines\<close>, \<open>comment_lines\<close>, \<open>function_count\<close> and
  \<open>complexity\<close>, and no other.
\<close>

theorem per_file_record_fields:
  assumes "analyze_files fs files = Inr (by_ext, per_file)"
  shows "length per_file = length files \<and>
         (\<forall>i < length files.
            per_file ! i =
              [(''file'', PStr (files ! i)),
               (''ext'', PStr (ext_of (files ! i))),
               (''total_lines'', PInt (int (length (file_lines fs (files ! i))))),
               (''comment_lines'',
                  PInt (int (estimate_comment_lines (ext_of (files ! i)) (file_lines fs (files ! i))))),
               (''function_count'',
                  PInt (int (count_functions (join [CHR 0x0A] (file_lines fs (files ! i)))))),
               (''complexity'', PFloat (estimate_complexity (file_lines fs (files ! i))))]) \<and>
         (\<forall>pf \<in> set per_file. map fst pf = reporter_fields) \<and>
         set reporter_fields \<inter> set engine_headers =
           {''ext'', ''total_lines'', ''comment_lines'', ''function_count'', ''complexity''}"
proof -
  from analyze_files_result [of fs files] assms
  have p: "per_file = map (\<lambda>f. per_file_record f (file_lines fs f)) files"
    by auto
  have "set reporter_fields \<inter> set engine_headers =
      {''ext'', ''total_lines'', ''comment_lines'', ''function_count'', ''complexity''}"
    by (auto simp: reporter_fields_def engine_headers_def)
  moreover have "\<forall>i < length files.
            per_file ! i =
              [(''file'', PStr (files ! i)),
               (''ext'', PStr (ext_of (files ! i))),
               (''total_lines'', PInt (int (length (file_lines fs (files ! i))))),
               (''comment_lines'',
                  PInt (int (estimate_comment_lines (ext_of (files ! i)) (file_lines fs (files ! i))))),
               (''function_count'',
                  PInt (int (count_functions (join [CHR 0x0A] (file_lines fs (files ! i)))))),
               (''complexity'', PFloat (estimate_complexity (file_lines fs (files ! i))))]"
    by (simp add: p per_file_record_def Let_def)
  ultimately show ?thesis
    by (auto simp: p per_file_record_keys)
qed

text \<open>
  C8: the result of the analysis is a function of the list of files and of what reading
  these files gives.  On two file systems that give the same text (or the same failure) for
  every listed file, under both encodings, the analysis returns the same per-file records
  and the same aggregates, in the same order; in particular two runs on an unchanged tree
  agree.
\<close>

theorem analyze_files_deterministic:
  assumes "\<forall>f \<in> set files. \<forall>enc.
             fs_read_text fs (path_str f) enc = fs_read_text fs' (path_str f) enc"
  shows "analyze_files fs files = analyze_files fs' files"
  unfolding analyze_files_def using assms by (rule analyze_loop_cong)

text \<open>
  C9: the aggregate by extension is the sum of the per-file records.  The keys of
  \<open>by_ext\<close> are distinct; an extension is a key only if some per-file record has it, and
  then its \<open>file_count\<close> is the number of the per-file records with that extension and its
  \<open>total_lines\<close>, \<open>comment_lines\<close> and \<open>function_count\<close> are the sums of these
  fields over exactly those records; and the extension of every per-file record is a key.
\<close>

theorem by_ext_sums_per_file:
  assumes "analyze_files fs files = Inr (by_ext, per_file)"
  shows "distinct (map fst by_ext) \<and>
    (\<forall>ext agg. map_of by_ext ext = Some agg \<longrightarrow>
        (\<exists>pf \<in> set per_file. has_ext ext pf) \<and>
        map_of agg ''file_count'' = Some (PInt (int (length (filter (has_ext ext) per_file)))) \<and>
        map_of agg ''total_lines'' = Some (PInt (field_sum ''total_lines'' ext per_file)) \<and>
        map_of agg ''comment_lines'' = Some (PInt (field_sum ''comment_lines'' ext per_file)) \<and>
        map_of agg ''function_count'' = Some (PInt (field_sum ''function_count'' ext per_file))) \<and>
    (\<forall>pf \<in> set per_file. \<exists>ext agg. has_ext ext pf \<and> map_of by_ext ext = Some agg)"
proof -
  from analyze_files_result [of fs files] assms
  have p: "per_file = map (\<lambda>f. per_file_record f (file_lines fs f)) files"
    and inv: "agg_inv by_ext per_file"
    by auto
  from inv have d: "distinct (map fst by_ext)"
    and look: "\<And>x. map_of by_ext x =
        (if \<exists>pf \<in> set per_file. has_ext x pf then Some (summary_of per_file x) else None)"
    by (simp_all add: agg_inv_def)
  have a: "\<forall>ext agg. map_of by_ext ext = Some agg \<longrightarrow>
        (\<exists>pf \<in> set per_file. has_ext ext pf) \<and>
        map_of agg ''file_count'' = Some (PInt (int (length (filter (has_ext ext) per_file)))) \<and>
        map_of agg ''total_lines'' = Some (PInt (field_sum ''total_lines'' ext per_file)) \<and>
        map_of agg ''comment_lines'' = Some (PInt (field_sum ''comment_lines'' ext per_file)) \<and>
        map_of agg ''function_count'' = Some (PInt (field_sum ''function_count'' ext per_file))"
  proof (intro allI impI)
    fix ext agg
    assume m: "map_of by_ext ext = Some agg"
    with look [of ext] have ex: "\<exists>pf \<in> set per_file. has_ext ext pf"
      by (simp split: if_splits)
    with m look [of ext] have "agg = summary_of per_file ext"
      by simp
    with ex show "(\<exists>pf \<in> set per_file. has_ext ext pf) \<and>
        map_of agg ''file_count'' = Some (PInt (int (length (filter (has_ext ext) per_file)))) \<and>
        map_of agg ''total_lines'' = Some (PInt (field_sum ''total_lines'' ext per_file)) \<and>
        map_of agg ''comment_lines'' = Some (PInt (field_sum ''comment_lines'' ext per_file)) \<and>
        map_of agg ''function_count'' = Some (PInt (field_sum ''function_count'' ext per_file))"
      by (simp add: summary_of_def agg_of_def)
  qed
  have b: "\<forall>pf \<in> set per_file. \<exists>ext agg. has_ext ext pf \<and> map_of by_ext ext = Some agg"
  proof
    fix pf
    assume "pf \<in> set per_file"
    then obtain f where "pf = per_file_record f (file_lines fs f)"
      by (auto simp: p)
    then have h: "has_ext (ext_of f) pf"
      by (simp add: has_ext_record)
    with \<open>pf \<in> set per_file\<close> have "map_of by_ext (ext_of f) = Some (summary_of per_file (ext_of f))"
      by (auto simp: look)
    with h show "\<exists>ext agg. has_ext ext pf \<and> map_of by_ext ext = Some agg"
      by blast
  qed
  from d a b show ?thesis by blast
qed



section \<open>The properties of \<open>analyze_files\<close> on the example\<close>


lemma path_str_examples:
  "path_str ''a.py'' = ''a.py''" "path_str ''b.js'' = ''b.js''" "path_str ''gone.c'' = ''gone.c''"
  "path_str ''./a.py'' = ''a.py''"
  by code_simp+

lemma analyze_example_one:
  "analyze_files example_fs [''a.py''] = Inr ([(''.py'', agg_of ''.py'' 1 3 1 1)], [example_record])"
  by code_simp

lemma analyze_example_three:
  "analyze_files example_fs [''a.py'', ''b.js'', ''./a.py''] =
     Inr ([(''.py'', agg_of ''.py'' 2 6 2 2), (''.js'', agg_of ''.js'' 1 2 2 0)],
          [example_record, example_record_js, (''file'', PStr ''./a.py'') # tl example_record])"
  by code_simp

text \<open>
  C1, as the claim states it, fails: the record of the reporter for the file \<open>a.py\<close> names
  the path \<open>file\<close>, not \<open>path\<close>, and has none of the fields \<open>function_avg_length\<close>,
  \<open>todo_count\<close>, \<open>blank_lines\<close>, \<open>comment_only_lines\<close> and \<open>code_lines\<close> of the
  engine's per-file table.
\<close>

theorem reporter_record_lacks_engine_fields:
  "analyze_files example_fs [''a.py''] =
     Inr ([(''.py'', agg_of ''.py'' 1 3 1 1)], [example_record]) \<and>
   map fst example_record \<noteq> engine_headers \<and>
   map_of example_record ''path'' = None \<and>
   map_of example_record ''function_avg_length'' = None \<and>
   map_of example_record ''todo_count'' = None \<and>
   map_of example_record ''blank_lines'' = None \<and>
   map_of example_record ''comment_only_lines'' = None \<and>
   map_of example_record ''code_lines'' = None"
  by code_simp

text \<open>
  C8 on the two file systems of the example, which agree on \<open>a.py\<close> and \<open>b.js\<close>.
\<close>

theorem analyze_files_deterministic_witness:
  "fs_read_text example_fs (path_str ''a.py'') Utf8_ignore =
     fs_read_text example_fs2 (path_str ''a.py'') Utf8_ignore \<and>
   fs_read_text example_fs (path_str ''a.py'') Latin1_ignore =
     fs_read_text example_fs2 (path_str ''a.py'') Latin1_ignore \<and>
   fs_read_text example_fs (path_str ''b.js'') Utf8_ignore =
     fs_read_text example_fs2 (path_str ''b.js'') Utf8_ignore \<and>
   fs_read_text example_fs (path_str ''b.js'') Latin1_ignore =
     fs_read_text example_fs2 (path_str ''b.js'') Latin1_ignore \<and>
   fs_exists example_fs ''a.py'' \<noteq> fs_exists example_fs2 ''a.py'' \<and>
   analyze_files example_fs [''a.py'', ''b.js''] = analyze_files example_fs2 [''a.py'', ''b.js'']"
proof -
  have h: "\<forall>f \<in> set [''a.py'', ''b.js'']. \<forall>enc.
      fs_read_text example_fs (path_str f) enc = fs_read_text example_fs2 (path_str f) enc"
    by (simp add: path_str_examples example_fs2_def)
  have d: "fs_exists example_fs ''a.py'' \<noteq> fs_exists example_fs2 ''a.py''"
    by (simp add: example_fs_def example_fs2_def)
  from analyze_files_deterministic [OF h] h d show ?thesis by simp
qed

text \<open>
  C9 on three files of the example, two of them with the extension \<open>.py\<close>.
\<close>

theorem by_ext_sums_per_file_witness:
  "analyze_files example_fs [''a.py'', ''b.js'', ''./a.py''] =
     Inr ([(''.py'', agg_of ''.py'' 2 6 2 2), (''.js'', agg_of ''.js'' 1 2 2 0)],
          [example_record, example_record_js, (''file'', PStr ''./a.py'') # tl example_record]) \<and>
   map_of (agg_of ''.py'' 2 6 2 2) ''file_count'' =
     Some (PInt (int (length (filter (has_ext ''.py'')
       [example_record, example_record_js, (''file'', PStr ''./a.py'') # tl example_record])))) \<and>
   map_of (agg_of ''.py'' 2 6 2 2) ''total_lines'' =
     Some (PInt (field_sum ''total_lines'' ''.py''
       [example_record, example_record_js, (''file'', PStr ''./a.py'') # tl example_record]))"
proof -
  have m: "map_of [(''.py'', agg_of ''.py'' 2 6 2 2), (''.js'', agg_of ''.js'' 1 2 2 0)] ''.py'' =
      Some (agg_of ''.py'' 2 6 2 2)"
    by simp
  from by_ext_sums_per_file [OF analyze_example_three] m analyze_example_three
  show ?thesis by blast
qed

lemma analyze_example_two:
  "analyze_files example_fs [''b.js'', ''a.py''] =
     Inr ([(''.js'', agg_of ''.js'' 1 2 2 0), (''.py'', agg_of ''.py'' 1 3 1 1)],
          [example_record_js, example_record])"
  by code_simp

text \<open>
  The amended C1 on two files of the example, listed with \<open>b.js\<close> first.
\<close>

theorem per_file_record_fields_witness:
  "analyze_files example_fs [''b.js'', ''a.py''] =
     Inr ([(''.js'', agg_of ''.js'' 1 2 2 0), (''.py'', agg_of ''.py'' 1 3 1 1)],
          [example_record_js, example_record]) \<and>
   length [example_record_js, example_record] = length [''b.js'', ''a.py''] \<and>
   map_of ([example_record_js, example_record] ! 0) ''file'' = Some (PStr ''b.js'') \<and>
   map_of ([example_record_js, example_record] ! 1) ''file'' = Some (PStr ''a.py'') \<and>
   map fst example_record_js = reporter_fields \<and>
   map fst example_record = reporter_fields"
proof -
  from per_file_record_fields [OF analyze_example_two]
  have a: "\<forall>i < length [''b.js'', ''a.py''].
      map_of ([example_record_js, example_record] ! i) ''file'' = Some (PStr ([''b.js'', ''a.py''] ! i))"
    and b: "\<forall>pf \<in> set [example_record_js, example_record]. map fst pf = reporter_fields"
    by simp_all
  from a [rule_format, of 0] a [rule_format, of 1] b analyze_example_two
  show ?thesis by simp
qed




section \<open>Properties of \<open>list_changed_files\<close>\<close>


lemma split_on_nonempty: "split_on c s \<noteq> []"
  by (induction s) (auto split: list.splits)

lemma split_on_no_sep: "w \<in> set (split_on c s) \<Longrightarrow> c \<notin> set w"
proof (induction s arbitrary: w)
  case Nil
  then show ?case by simp
next
  case (Cons x xs)
  show ?case
  proof (cases "x = c")
    case True
    with Cons show ?thesis by auto
  next
    case False
    from split_on_nonempty [of c xs] obtain v vs where v: "split_on c xs = v # vs"
      by (cases "split_on c xs") auto
    with False Cons.prems have "w = x # v \<or> w \<in> set vs"
      by auto
    with False v Cons.IH show ?thesis
      by auto
  qed
qed

lemma split_on_single: "c \<notin> set w \<Longrightarrow> split_on c w = [w]"
  by (induction w) auto

lemma split_on_append: "c \<notin> set w \<Longrightarrow> split_on c (w @ c # rest) = w # split_on c rest"
  by (induction w) auto

lemma split_on_join:
  "ws \<noteq> [] \<Longrightarrow> \<forall>w \<in> set ws. c \<notin> set w \<Longrightarrow> split_on c (join [c] ws) = ws"
proof (induction "[c]" ws rule: join.induct)
  case 1
  then show ?case by simp
next
  case (2 x)
  then show ?case by (simp add: split_on_single)
next
  case (3 x y ys)
  then show ?case by (simp add: split_on_append)
qed

lemma path_parts_ok:
  "w \<in> set (path_parts f) \<Longrightarrow> CHR ''/'' \<notin> set w \<and> w \<noteq> [] \<and> w \<noteq> ''.''"
  by (auto simp: path_parts_def dest: split_on_no_sep)

lemma filter_parts_id:
  "filter (\<lambda>p. p \<noteq> [] \<and> p \<noteq> ''.'') (path_parts f) = path_parts f"
  by (simp add: path_parts_def)

lemma path_parts_str: "path_parts (path_str f) = path_parts f"
proof (cases "path_parts f = []")
  case True
  then show ?thesis
    by (simp add: path_str_def path_root_def path_parts_def [of "''.''"] path_parts_def [of "''/''"]
        path_parts_def [of "''//''"])
next
  case False
  have sep: "\<forall>w \<in> set (path_parts f). CHR ''/'' \<notin> set w"
    using path_parts_ok by blast
  have j: "split_on CHR ''/'' (join ''/'' (path_parts f)) = path_parts f"
    using False sep by (rule split_on_join)
  have "path_parts (path_root f @ join ''/'' (path_parts f)) = path_parts f"
    unfolding path_parts_def [of "path_root f @ join ''/'' (path_parts f)"]
    by (simp add: path_root_def j filter_parts_id)
  with False show ?thesis
    by (simp add: path_str_def)
qed

lemma path_suffix_str: "path_suffix (path_str f) = path_suffix f"
  by (simp add: path_suffix_def path_name_def path_parts_str)

lemma changed_loop_supported:
  "changed_loop fs result files = Inr out \<Longrightarrow>
   \<forall>p \<in> set result. py_lower (path_suffix p) \<in> set SUPPORTED_EXTS \<Longrightarrow>
   \<forall>p \<in> set out. py_lower (path_suffix p) \<in> set SUPPORTED_EXTS"
proof (induction files arbitrary: result)
  case Nil
  then show ?case by simp
next
  case (Cons f files)
  show ?case
  proof (cases "py_lower (path_suffix f) \<in> set SUPPORTED_EXTS")
    case False
    with Cons.prems(1) have "changed_loop fs result files = Inr out"
      by simp
    from Cons.IH [OF this Cons.prems(2)] show ?thesis .
  next
    case True
    with Cons.prems(1) consider
      "changed_loop fs result files = Inr out" |
      "changed_loop fs (result @ [path_str f]) files = Inr out"
      by (auto split: sum.splits if_splits)
    then show ?thesis
    proof cases
      case 1
      from Cons.IH [OF this Cons.prems(2)] show ?thesis .
    next
      case 2
      have "\<forall>p \<in> set (result @ [path_str f]). py_lower (path_suffix p) \<in> set SUPPORTED_EXTS"
        using Cons.prems(2) True by (simp add: path_suffix_str)
      from Cons.IH [OF 2 this] show ?thesis .
    qed
  qed
qed

lemma supported_not_asset:
  "x \<in> set SUPPORTED_EXTS \<Longrightarrow>
   x \<notin> set [''.zip'', ''.tar'', ''.gz'', ''.png'', ''.jpg'', ''.jpeg'', ''.gif'', ''.xls'', ''.xlsx'']"
  by (auto simp: SUPPORTED_EXTS_def)

text \<open>
  C10: every path that \<open>list_changed_files\<close> returns has a suffix whose lowercase form
  is in \<open>SUPPORTED_EXTS\<close>, whatever the diff printed and whatever the file system holds;
  so no returned path has the extension of an archive, an image or a spreadsheet.  The
  returned path is \<open>str(Path(f))\<close>, and its suffix is the suffix of \<open>Path(f)\<close>.
\<close>

theorem changed_files_have_supported_ext:
  assumes "list_changed_files run fs base head = Inr result"
  shows "\<forall>p \<in> set result.
           py_lower (path_suffix p) \<in> set SUPPORTED_EXTS \<and>
           py_lower (path_suffix p) \<notin>
             set [''.zip'', ''.tar'', ''.gz'', ''.png'', ''.jpg'', ''.jpeg'', ''.gif'', ''.xls'', ''.xlsx'']"
proof -
  from assms obtain files where "changed_loop fs [] files = Inr result"
    by (auto simp: list_changed_files_def split: sum.splits if_splits prod.splits)
  then have "\<forall>p \<in> set result. py_lower (path_suffix p) \<in> set SUPPORTED_EXTS"
    by (rule changed_loop_supported) simp
  then show ?thesis
    using supported_not_asset by blast
qed

lemma list_changed_example:
  "list_changed_files example_run example_fs ''main'' ''feature'' = Inr [''a.py'', ''b.js'']"
  by code_simp

text \<open>
  C10 on the example: of the four listed paths the image and the missing file are dropped.
\<close>

theorem changed_files_have_supported_ext_witness:
  "list_changed_files example_run example_fs ''main'' ''feature'' = Inr [''a.py'', ''b.js''] \<and>
   py_lower (path_suffix ''a.py'') \<in> set SUPPORTED_EXTS \<and>
   py_lower (path_suffix ''b.js'') \<in> set SUPPORTED_EXTS \<and>
   py_lower (path_suffix ''b.js'') \<notin>
     set [''.zip'', ''.tar'', ''.gz'', ''.png'', ''.jpg'', ''.jpeg'', ''.gif'', ''.xls'', ''.xlsx'']"
  using changed_files_have_supported_ext [OF list_changed_example] list_changed_example by simp

section \<open>The classifier on synthetic files\<close>


lemma startswith_iff: "startswith s p = (\<exists>t. s = p @ t)"
  by (induction s p rule: startswith.induct) auto

lemma step_blank: "is_blank raw \<Longrightarrow> ecl_step k st raw = st"
  by (simp add: ecl_step_def is_blank_def Let_def)

lemma blank_not_comment: "is_blank raw \<Longrightarrow> \<not> is_line_comment k raw"
  by (simp add: is_blank_def is_line_comment_def)

lemma step_normal_plain:
  assumes "\<not> starts_block k raw"
  shows "ecl_step k (c, False) raw = (if is_line_comment k raw then c + 1 else c, False)"
proof (cases "is_blank raw")
  case True
  then show ?thesis
    by (simp add: step_blank blank_not_comment)
next
  case False
  show ?thesis
  proof (cases "k = ''.py''")
    case True
    with assms False show ?thesis
      by (simp add: ecl_step_def Let_def is_blank_def starts_block_def is_line_comment_def)
  next
    case other: False
    with assms False show ?thesis
      by (simp add: ecl_step_def Let_def is_blank_def starts_block_def is_line_comment_def)
  qed
qed

lemma loop_normal_plain:
  "\<forall>raw \<in> set ls. \<not> starts_block k raw \<Longrightarrow>
   ecl_loop k (c, False) ls = (c + length (filter (is_line_comment k) ls), False)"
  by (induction ls arbitrary: c) (simp_all add: step_normal_plain)

lemma step_counts_line_comment:
  "(if is_line_comment k raw then c + 1 else c) \<le> fst (ecl_step k (c, b) raw)"
  by (cases "strip raw = []"; cases b; cases "k = ''.py''")
    (simp_all add: ecl_step_def Let_def is_line_comment_def)

lemma loop_counts_line_comments:
  "c + length (filter (is_line_comment k) ls) \<le> fst (ecl_loop k (c, b) ls)"
proof (induction ls arbitrary: c b)
  case Nil
  show ?case by simp
next
  case (Cons raw ls)
  obtain c' b' where st: "ecl_step k (c, b) raw = (c', b')"
    by (cases "ecl_step k (c, b) raw")
  with step_counts_line_comment [of k raw c b]
  have "(if is_line_comment k raw then c + 1 else c) \<le> c'"
    by simp
  moreover have "c' + length (filter (is_line_comment k) ls) \<le> fst (ecl_loop k (c', b') ls)"
    by (rule Cons.IH)
  ultimately show ?case
    by (simp add: st split: if_splits)
qed

lemma step_opener:
  assumes "opens_block k raw"
  shows "ecl_step k (c, False) raw = (c + 1, True)"
  using assms
  by (auto simp: opens_block_def starts_block_def ecl_step_def Let_def startswith_iff
      triple_single_def triple_double_def split: if_splits)

lemma step_inside:
  assumes "\<not> is_blank raw" and "no_block_end raw"
  shows "ecl_step k (c, True) raw = (c + 1, True)"
  using assms by (simp add: ecl_step_def Let_def is_blank_def no_block_end_def)

lemma step_closer:
  assumes "\<not> is_blank raw"
  shows "fst (ecl_step k (c, True) raw) = c + 1"
  using assms by (simp add: ecl_step_def Let_def is_blank_def)

lemma ecl_loop_append: "ecl_loop k st (xs @ ys) = ecl_loop k (ecl_loop k st xs) ys"
  by (induction xs arbitrary: st) simp_all

lemma kinds_partition:
  "\<forall>raw \<in> set ls. \<not> starts_block k raw \<Longrightarrow>
   length ls = length (filter is_blank ls) + length (filter (is_line_comment k) ls)
               + length (filter (is_code_line k) ls)"
  by (induction ls) (auto simp: is_code_line_def blank_not_comment)

lemma synthetic_comment_count:
  assumes plain: "\<forall>raw \<in> set (pre @ post). \<not> starts_block k raw"
    and op: "opens_block k opener"
    and mid: "\<not> is_blank middle" "no_block_end middle"
    and cl: "\<not> is_blank closer"
  shows "length (filter (is_line_comment k) (pre @ post)) + 3 \<le>
         fst (ecl_loop k (0, False) (pre @ [opener, middle, closer] @ post))"
proof -
  let ?a = "length (filter (is_line_comment k) pre)"
  from plain have "ecl_loop k (0, False) pre = (?a, False)"
    by (simp add: loop_normal_plain)
  then have "ecl_loop k (0, False) (pre @ [opener, middle]) = (?a + 2, True)"
    using op mid by (simp add: ecl_loop_append step_opener step_inside)
  moreover obtain c b where st: "ecl_step k (?a + 2, True) closer = (c, b)"
    by (cases "ecl_step k (?a + 2, True) closer")
  moreover from st step_closer [OF cl, of k "?a + 2"] have "c = ?a + 3"
    by simp
  ultimately have "ecl_loop k (0, False) (pre @ [opener, middle, closer] @ post) =
      ecl_loop k (?a + 3, b) post"
    using ecl_loop_append [of k "(0, False)" "pre @ [opener, middle]" "closer # post"]
    by simp
  with loop_counts_line_comments [of "?a + 3" k post b] show ?thesis
    by simp
qed

text \<open>
  C7, amended: take a file of \<open>N\<close> blank lines, \<open>C\<close> single-line comments and
  \<open>K\<close> code lines, none of them starting with a block-comment token, with one block comment
  of three lines among them: a first line that opens a block (for Python, one that does not
  end with a triple quote), a second line that is not blank and holds no token that ends a
  block, and a third line that is not blank.  The record of the reporter for it has
  \<open>total_lines = N + C + K + 3\<close> and \<open>comment_lines\<close> at least \<open>C + 3\<close>.  The record
  has no field \<open>blank_lines\<close> and no field \<open>code_lines\<close>.
\<close>

theorem synthetic_file_counts:
  assumes "k = py_lower (ext_of f)"
    and "\<forall>raw \<in> set (pre @ post). \<not> starts_block k raw"
    and "opens_block k opener"
    and "\<not> is_blank middle" and "no_block_end middle"
    and "\<not> is_blank closer"
  shows "map_of (per_file_record f (pre @ [opener, middle, closer] @ post)) ''total_lines'' =
           Some (PInt (int (length (filter is_blank (pre @ post))
                            + length (filter (is_line_comment k) (pre @ post))
                            + length (filter (is_code_line k) (pre @ post)) + 3))) \<and>
         (\<exists>n. map_of (per_file_record f (pre @ [opener, middle, closer] @ post)) ''comment_lines'' =
                 Some (PInt (int n)) \<and>
               length (filter (is_line_comment k) (pre @ post)) + 3 \<le> n) \<and>
         map_of (per_file_record f (pre @ [opener, middle, closer] @ post)) ''blank_lines'' = None \<and>
         map_of (per_file_record f (pre @ [opener, middle, closer] @ post)) ''code_lines'' = None"
proof -
  have "length (pre @ [opener, middle, closer] @ post) = length (pre @ post) + 3"
    by simp
  also have "length (pre @ post) =
      length (filter is_blank (pre @ post)) + length (filter (is_line_comment k) (pre @ post))
      + length (filter (is_code_line k) (pre @ post))"
    using assms(2) by (rule kinds_partition)
  finally have t: "length (pre @ [opener, middle, closer] @ post) =
      length (filter is_blank (pre @ post)) + length (filter (is_line_comment k) (pre @ post))
      + length (filter (is_code_line k) (pre @ post)) + 3" .
  have c: "length (filter (is_line_comment k) (pre @ post)) + 3 \<le>
      estimate_comment_lines (ext_of f) (pre @ [opener, middle, closer] @ post)"
    unfolding estimate_comment_lines_def assms(1) [symmetric]
    using assms(2-6) by (rule synthetic_comment_count)
  have r: "map_of (per_file_record f ls) ''total_lines'' = Some (PInt (int (length ls)))"
    "map_of (per_file_record f ls) ''comment_lines'' =
       Some (PInt (int (estimate_comment_lines (ext_of f) ls)))"
    "map_of (per_file_record f ls) ''blank_lines'' = None"
    "map_of (per_file_record f ls) ''code_lines'' = None" for ls
    by (simp_all add: per_file_record_def Let_def)
  from t c show ?thesis
    by (simp only: r) blast
qed

lemma synthetic_js_parts:
  "synthetic_js = [[], ''// setup'', ''x = 1;''] @ [''/*'', '' * note'', '' */''] @ [''y = 2;'']"
  by (simp add: synthetic_js_def)

lemma synthetic_js_kinds:
  "''.js'' = py_lower (ext_of ''app.js'')"
  "list_all (\<lambda>raw. \<not> starts_block ''.js'' raw) ([[], ''// setup'', ''x = 1;''] @ [''y = 2;''])"
  "opens_block ''.js'' ''/*''"
  "\<not> is_blank '' * note''" "no_block_end '' * note''" "\<not> is_blank '' */''"
  "length (filter is_blank ([[], ''// setup'', ''x = 1;''] @ [''y = 2;''])) = 1"
  "length (filter (is_line_comment ''.js'') ([[], ''// setup'', ''x = 1;''] @ [''y = 2;''])) = 1"
  "length (filter (is_code_line ''.js'') ([[], ''// setup'', ''x = 1;''] @ [''y = 2;''])) = 2"
  by code_simp+

lemma synthetic_js_record:
  "per_file_record ''app.js'' synthetic_js =
     [(''file'', PStr ''app.js''), (''ext'', PStr ''.js''), (''total_lines'', PInt 7),
      (''comment_lines'', PInt 4), (''function_count'', PInt 0), (''complexity'', PFloat 0)]"
  by code_simp

text \<open>
  The amended C7 on the JavaScript file of the example: \<open>N = 1\<close>, \<open>C = 1\<close>, \<open>K = 2\<close>.
\<close>

theorem synthetic_file_counts_witness:
  "map_of (per_file_record ''app.js'' synthetic_js) ''total_lines'' = Some (PInt (int (1 + 1 + 2 + 3))) \<and>
   map_of (per_file_record ''app.js'' synthetic_js) ''comment_lines'' = Some (PInt 4) \<and>
   (1 :: nat) + 3 \<le> 4 \<and>
   map_of (per_file_record ''app.js'' synthetic_js) ''blank_lines'' = None \<and>
   map_of (per_file_record ''app.js'' synthetic_js) ''code_lines'' = None"
proof -
  have plain: "\<forall>raw \<in> set ([[], ''// setup'', ''x = 1;''] @ [''y = 2;'']). \<not> starts_block ''.js'' raw"
    using synthetic_js_kinds(2) by (simp only: list_all_iff)
  from synthetic_file_counts [OF synthetic_js_kinds(1) plain synthetic_js_kinds(3-6)]
  have "map_of (per_file_record ''app.js'' synthetic_js) ''total_lines'' =
          Some (PInt (int (1 + 1 + 2 + 3))) \<and>
        map_of (per_file_record ''app.js'' synthetic_js) ''blank_lines'' = None \<and>
        map_of (per_file_record ''app.js'' synthetic_js) ''code_lines'' = None"
    by (simp only: synthetic_js_kinds(7-9) synthetic_js_parts [symmetric])
  with synthetic_js_record show ?thesis
    by simp
qed

text \<open>
  C7, as the claim states it, fails.  The record of the reporter has no \<open>blank_lines\<close> and
  no \<open>code_lines\<close>: for the JavaScript file it holds the six fields shown and nothing
  else.  And for a Python docstring of three lines whose first and last line are the bare
  triple quote, \<open>comment_lines\<close> is 2, below \<open>C + 3 = 3\<close>: the bare opening line both
  starts and ends with the triple quote, so the classifier stays in the state Normal and the
  middle line is not counted.
\<close>

theorem synthetic_file_counterexample:
  "per_file_record ''app.js'' synthetic_js =
     [(''file'', PStr ''app.js''), (''ext'', PStr ''.js''), (''total_lines'', PInt 7),
      (''comment_lines'', PInt 4), (''function_count'', PInt 0), (''complexity'', PFloat 0)] \<and>
   map_of (per_file_record ''app.js'' synthetic_js) ''blank_lines'' = None \<and>
   map_of (per_file_record ''app.js'' synthetic_js) ''code_lines'' = None \<and>
   estimate_comment_lines ''.py'' synthetic_py = 2 \<and>
   length synthetic_py = 3 \<and>
   ecl_step ''.py'' (0, False) triple_double = (1, False)"
  by code_simp

end
